theory Spec2Isabelle
  imports Main
begin

section \<open>JavaScript values and the object store\<close>

text \<open>
  The data fields of class \<open>CompilationContext\<close> (compilation_context.ts, lines 10 to 31).
  Method names, which \<open>keyof CompilationContext\<close> also contains, are not keys of the model.
\<close>

datatype key =
    code | variables | escaping | parentNode | parentTextNode | rootNode | indentLevel
  | rootContext | shouldDefineParent | shouldDefineScope | shouldDefineQWeb
  | shouldDefineUtils | shouldDefineRefs | shouldDefineResult | loopNumber | inPreTag
  | templateName | allowMultipleRoots | hasParentWidget | hasKey0 | keyStack | subScopeID

text \<open>
  Modelled from the spec: \<open>QWebVar\<close> is declared in expression_parser.ts, which is not
  among the sources. The spec describes it as either a literal replacement string or a
  reference to another variable name, so it is a string here.
\<close>

type_synonym QWebVar = string

text \<open>
  The values a field can hold. Numbers are integers: the class only ever counts up and
  down by one from integer literals; fractions, NaN and infinities are outside the
  model. The arithmetic on indentation and loop levels is integer arithmetic, which is
  what the doubles of JavaScript do below \<open>2 ^ 53\<close>; the increment of the id counter,
  whose values must never repeat, is modelled with the rounding of doubles (\<open>jsSucc\<close>
  below). A context and
  a string array are references into the store. The variable mapping, which the class
  only reads, is the finite list of its entries, an entry hiding every later entry with
  the same key; what it inherits from \<open>Object.prototype\<close> is added where it is read
  (\<open>readVariable\<close> below). \<open>keyStack\<close>, which no method of the class touches, is held
  by value.
\<close>

datatype jsval =
    JUndefined
  | JNull
  | JBool bool
  | JNum int
  | JStr string
  | JCtx nat
  | JStrArray nat
  | JBoolArray "bool list"
  | JVars "(string \<times> QWebVar) list"

text \<open>
  An object has a prototype link (set by \<open>Object.create\<close>) and own properties. The heap
  holds the context objects, the string arrays (\<open>code\<close>), and the static counter
  \<open>CompilationContext.nextID\<close>. An address is an index; allocation appends.
\<close>

record obj =
  proto :: "nat option"
  props :: "key \<Rightarrow> jsval option"

record heap =
  objs :: "obj list"
  arrays :: "string list list"
  nextID :: int

text \<open>The state of a process in which the module has just been loaded (line 9).\<close>

definition init :: heap where
  "init = \<lparr>objs = [], arrays = [], nextID = 1\<rparr>"

text \<open>
  Reading a property walks the prototype chain. An object created by \<open>Object.create\<close> is
  newer than its prototype, so a prototype link always points to a smaller address; the
  guard \<open>p < a\<close> is that fact. A property found nowhere reads as \<open>undefined\<close>.
\<close>

function lookup :: "obj list \<Rightarrow> nat \<Rightarrow> key \<Rightarrow> jsval" where
  "lookup os a k =
     (if a < length os then
        (case props (os ! a) k of
           Some v \<Rightarrow> v
         | None \<Rightarrow>
            (case proto (os ! a) of
               Some p \<Rightarrow> (if p < a then lookup os p k else JUndefined)
             | None \<Rightarrow> JUndefined))
      else JUndefined)"
  by pat_completeness auto
termination
  by (relation "measure (\<lambda>(os, a, k). a)") auto

declare lookup.simps [simp del]

definition getProp :: "heap \<Rightarrow> nat \<Rightarrow> key \<Rightarrow> jsval" where
  "getProp h a k = lookup (objs h) a k"

text \<open>Assigning to a data property creates or updates an own property of the receiver.\<close>

definition setProp :: "nat \<Rightarrow> key \<Rightarrow> jsval \<Rightarrow> heap \<Rightarrow> heap" where
  "setProp a k v h =
     h\<lparr>objs := (objs h)[a := (objs h ! a)\<lparr>props := (props (objs h ! a))(k \<mapsto> v)\<rparr>]\<rparr>"

text \<open>JavaScript truthiness, as used by \<open>!\<close>, \<open>||\<close>, \<open>&&\<close> and \<open>?:\<close>.\<close>

fun truthy :: "jsval \<Rightarrow> bool" where
  "truthy JUndefined = False"
| "truthy JNull = False"
| "truthy (JBool b) = b"
| "truthy (JNum n) = (n \<noteq> 0)"
| "truthy (JStr s) = (s \<noteq> [])"
| "truthy (JCtx a) = True"
| "truthy (JStrArray a) = True"
| "truthy (JBoolArray bs) = True"
| "truthy (JVars vs) = True"

section \<open>Errors and actions\<close>

text \<open>
  \<open>Error msg\<close> is \<open>throw new Error(msg)\<close>; \<open>RangeError\<close> is what \<open>new Array(n)\<close> throws
  for an invalid length. \<open>IllTyped\<close> marks a field that holds a value outside its declared
  TypeScript type where the method needs that type (\<open>subContext\<close> takes \<open>value: any\<close>);
  the coercions JavaScript would perform there are not modelled.
  A method is an action on the heap. A throw keeps the heap as it was when thrown.
\<close>

datatype error = Error string | RangeError | IllTyped

type_synonym 'a action = "heap \<Rightarrow> (error + 'a) \<times> heap"

definition ret :: "'a \<Rightarrow> 'a action" where
  "ret v h = (Inr v, h)"

definition throw :: "error \<Rightarrow> 'a action" where
  "throw e h = (Inl e, h)"

definition andThen :: "'a action \<Rightarrow> ('a \<Rightarrow> 'b action) \<Rightarrow> 'b action" where
  "andThen m f h = (case m h of (Inl e, h') \<Rightarrow> (Inl e, h') | (Inr v, h') \<Rightarrow> f v h')"

definition numField :: "nat \<Rightarrow> key \<Rightarrow> int action" where
  "numField this k h = (case getProp h this k of JNum n \<Rightarrow> ret n h | _ \<Rightarrow> throw IllTyped h)"

definition ctxField :: "nat \<Rightarrow> key \<Rightarrow> nat action" where
  "ctxField this k h = (case getProp h this k of JCtx r \<Rightarrow> ret r h | _ \<Rightarrow> throw IllTyped h)"

definition codeArray :: "nat \<Rightarrow> nat action" where
  "codeArray this h =
     (case getProp h this code of
        JStrArray a \<Rightarrow> (if a < length (arrays h) then ret a h else throw IllTyped h)
      | _ \<Rightarrow> throw IllTyped h)"

definition assign :: "nat \<Rightarrow> key \<Rightarrow> jsval \<Rightarrow> unit action" where
  "assign a k v h = (Inr (), setProp a k v h)"

section \<open>Printing numbers\<close>

definition digit :: "nat \<Rightarrow> char" where
  "digit d = ''0123456789'' ! d"

fun showNat :: "nat \<Rightarrow> string" where
  "showNat n = (if n < 10 then [digit n] else showNat (n div 10) @ [digit (n mod 10)])"

declare showNat.simps [simp del]

definition showInt :: "int \<Rightarrow> string" where
  "showInt n = (if n < 0 then ''-'' @ showNat (nat (- n)) else showNat (nat n))"

section \<open>Instruction emission\<close>

text \<open>
  \<open>new Array(len).join(sep)\<close>: a length that is not an unsigned 32-bit integer throws a
  RangeError; an array of \<open>len\<close> holes joins to \<open>len - 1\<close> separators.
\<close>

definition newArrayJoin :: "int \<Rightarrow> string \<Rightarrow> string action" where
  "newArrayJoin len sep =
     (if len < 0 \<or> 2 ^ 32 \<le> len then throw RangeError
      else ret (concat (replicate (nat len - 1) sep)))"

definition push :: "nat \<Rightarrow> string \<Rightarrow> nat action" where
  "push a x h = (Inr (length (arrays h ! a)), h\<lparr>arrays := (arrays h)[a := arrays h ! a @ [x]]\<rparr>)"

definition unshift :: "nat \<Rightarrow> string \<Rightarrow> unit action" where
  "unshift a x h = (Inr (), h\<lparr>arrays := (arrays h)[a := x # arrays h ! a]\<rparr>)"

text \<open>Lines 123 to 127. The result is the index of the appended line.\<close>

definition addLine :: "nat \<Rightarrow> string \<Rightarrow> nat action" where
  "addLine this line =
     andThen (numField this indentLevel) (\<lambda>n.
     andThen (newArrayJoin (n + 2) ''    '') (\<lambda>prefix.
     andThen (codeArray this) (\<lambda>a.
     push a (prefix @ line))))"

text \<open>Lines 115 to 121: the counter of the ROOT is the one that moves.\<close>

definition indent :: "nat \<Rightarrow> unit action" where
  "indent this =
     andThen (ctxField this rootContext) (\<lambda>r.
     andThen (numField r indentLevel) (\<lambda>n.
     assign r indentLevel (JNum (n + 1))))"

definition dedent :: "nat \<Rightarrow> unit action" where
  "dedent this =
     andThen (ctxField this rootContext) (\<lambda>r.
     andThen (numField r indentLevel) (\<lambda>n.
     assign r indentLevel (JNum (n - 1))))"

text \<open>Lines 129 to 143.\<close>

definition addIf :: "nat \<Rightarrow> string \<Rightarrow> unit action" where
  "addIf this condition =
     andThen (addLine this (''if ('' @ condition @ '') {'')) (\<lambda>_. indent this)"

definition addElse :: "nat \<Rightarrow> unit action" where
  "addElse this =
     andThen (dedent this) (\<lambda>_.
     andThen (addLine this ''} else {'') (\<lambda>_. indent this))"

definition closeIf :: "nat \<Rightarrow> unit action" where
  "closeIf this =
     andThen (dedent this) (\<lambda>_.
     andThen (addLine this ''}'') (\<lambda>_. ret ()))"

section \<open>Construction and identifiers\<close>

text \<open>
  Lines 10 to 37. The field initialisers run first, then the constructor body; the
  argument is \<open>None\<close> when the caller omits the name.
\<close>

definition initialFields :: "nat \<Rightarrow> nat \<Rightarrow> string option \<Rightarrow> key \<Rightarrow> jsval option" where
  "initialFields this a name k =
     Some (case k of
        code \<Rightarrow> JStrArray a
      | variables \<Rightarrow> JVars []
      | escaping \<Rightarrow> JBool False
      | parentNode \<Rightarrow> JNull
      | parentTextNode \<Rightarrow> JNull
      | rootNode \<Rightarrow> JNull
      | indentLevel \<Rightarrow> JNum 0
      | rootContext \<Rightarrow> JCtx this
      | shouldDefineParent \<Rightarrow> JBool False
      | shouldDefineScope \<Rightarrow> JBool False
      | shouldDefineQWeb \<Rightarrow> JBool False
      | shouldDefineUtils \<Rightarrow> JBool False
      | shouldDefineRefs \<Rightarrow> JBool False
      | shouldDefineResult \<Rightarrow> JBool True
      | loopNumber \<Rightarrow> JNum 0
      | inPreTag \<Rightarrow> JBool False
      | templateName \<Rightarrow>
          JStr (case name of None \<Rightarrow> ''noname'' | Some n \<Rightarrow> if n = [] then ''noname'' else n)
      | allowMultipleRoots \<Rightarrow> JBool False
      | hasParentWidget \<Rightarrow> JBool False
      | hasKey0 \<Rightarrow> JBool False
      | keyStack \<Rightarrow> JBoolArray []
      | subScopeID \<Rightarrow> JNull)"

definition allocContext :: "string option \<Rightarrow> nat action" where
  "allocContext name h =
     (let this = length (objs h); a = length (arrays h) in
      (Inr this,
       h\<lparr>objs := objs h @ [\<lparr>proto = None, props = initialFields this a name\<rparr>],
         arrays := arrays h @ [[]]\<rparr>))"

definition CompilationContext :: "string option \<Rightarrow> nat action" where
  "CompilationContext name =
     andThen (allocContext name) (\<lambda>this.
     andThen (addLine this ''let h = this.h;'') (\<lambda>_. ret this))"

text \<open>
  \<open>n + 1\<close> on a number \<open>n\<close> that is an integer: the sum is rounded to the nearest
  double, a tie going to the double with the even significand. From \<open>- 2 ^ 53\<close> up to
  \<open>2 ^ 53 - 1\<close> the sum is exact. Beyond that and below \<open>2 ^ 54\<close> in magnitude the
  doubles are the even integers and the sum lies halfway between two of them; from
  \<open>2 ^ 54\<close> on the doubles are at least 4 apart and the sum rounds back to \<open>n\<close>.
\<close>

definition jsSucc :: "int \<Rightarrow> int" where
  "jsSucc n =
     (if - (2 ^ 53) \<le> n \<and> n < 2 ^ 53 then n + 1
      else if \<bar>n\<bar> < 2 ^ 54 then (if even (n div 2) then n else n + 2)
      else n)"

text \<open>Lines 39 to 41: the post-increment returns the old value of the static counter.\<close>

definition generateID :: "nat \<Rightarrow> int action" where
  "generateID this h = (Inr (nextID h), h\<lparr>nextID := jsSucc (nextID h)\<rparr>)"

text \<open>
  Lines 51 to 63. The loop \<open>for (let i = start; i < this.loopNumber + 1; i++)\<close>
  appends the iteration-index variable of each level to the key.
\<close>

definition quote :: char where
  "quote = CHR 0x27"

definition backtick :: char where
  "backtick = CHR 0x60"

function keyLoop :: "int \<Rightarrow> int \<Rightarrow> string \<Rightarrow> string" where
  "keyLoop i n k =
     (if i < n + 1 then keyLoop (i + 1) n (k @ ''${key'' @ showInt i @ ''}__'') else k)"
  by pat_completeness auto
termination
  by (relation "measure (\<lambda>(i, n, k). nat (n + 1 - i))") auto

declare keyLoop.simps [simp del]

definition generateTemplateKey :: "nat \<Rightarrow> string option \<Rightarrow> string action" where
  "generateTemplateKey this prefixArg =
     (let prefix = (case prefixArg of None \<Rightarrow> [] | Some p \<Rightarrow> p) in
      andThen (generateID this) (\<lambda>id h.
        if getProp h this loopNumber = JNum 0 \<and> \<not> truthy (getProp h this hasKey0)
        then ret (quote # prefix @ ''__'' @ showInt id @ ''__'' @ [quote]) h
        else
          (let k = backtick # prefix @ ''__'' @ showInt id @ ''__'';
               start = (if truthy (getProp h this hasKey0) then 0 else 1) in
           andThen (numField this loopNumber) (\<lambda>n.
           andThen (addLine this
                      (''let k'' @ showInt id @ '' = '' @ keyLoop start n k @ [backtick] @ '';''))
             (\<lambda>_. ret (''k'' @ showInt id)))) h))"

section \<open>Final code assembly\<close>

definition unshiftLine :: "nat \<Rightarrow> string \<Rightarrow> unit action" where
  "unshiftLine this x = andThen (codeArray this) (\<lambda>a. unshift a x)"

definition ifField :: "nat \<Rightarrow> key \<Rightarrow> unit action \<Rightarrow> unit action" where
  "ifField this k m h = (if truthy (getProp h this k) then m h else ret () h)"

text \<open>Lines 65 to 90. The result is the content of the array that \<open>this.code\<close> refers to.\<close>

definition generateCode :: "nat \<Rightarrow> string list action" where
  "generateCode this =
     andThen (ifField this shouldDefineResult (unshiftLine this ''    let result;'')) (\<lambda>_.
     andThen (ifField this shouldDefineScope
                (unshiftLine this ''    let scope = Object.create(context);'')) (\<lambda>_.
     andThen (ifField this shouldDefineRefs
                (unshiftLine this
                   ''    context.__owl__.refs = context.__owl__.refs || {};'')) (\<lambda>_.
     andThen (ifField this shouldDefineParent
                (\<lambda>h. if truthy (getProp h this hasParentWidget)
                     then unshiftLine this ''    let parent = extra.parent;'' h
                     else unshiftLine this ''    let parent = context;'' h)) (\<lambda>_.
     andThen (ifField this shouldDefineQWeb
                (unshiftLine this ''    let QWeb = this.constructor;'')) (\<lambda>_.
     andThen (ifField this shouldDefineUtils
                (unshiftLine this ''    let utils = this.constructor.utils;'')) (\<lambda>_.
     andThen (codeArray this) (\<lambda>a h. ret (arrays h ! a) h)))))))"

section \<open>Scope derivation\<close>

text \<open>
  Lines 109 to 113: \<open>Object.create(this)\<close> allocates an object whose prototype is the
  receiver, and the assignment gives it one own property.
\<close>

definition subContext :: "nat \<Rightarrow> key \<Rightarrow> jsval \<Rightarrow> nat action" where
  "subContext this k v h =
     (Inr (length (objs h)),
      h\<lparr>objs := objs h @ [\<lparr>proto = Some this, props = Map.empty(k \<mapsto> v)\<rparr>]\<rparr>)"

text \<open>Lines 92 to 107.\<close>

definition withParent :: "nat \<Rightarrow> int \<Rightarrow> nat action" where
  "withParent this node h =
     (if \<not> truthy (getProp h this allowMultipleRoots)
         \<and> getProp h this rootContext = JCtx this
         \<and> (truthy (getProp h this parentNode) \<or> truthy (getProp h this parentTextNode))
      then throw (Error ''A template should not have more than one root node'') h
      else
        andThen (ctxField this rootContext) (\<lambda>r.
        andThen (\<lambda>h1. if \<not> truthy (getProp h1 r rootNode)
                      then assign r rootNode (JNum node) h1 else ret () h1) (\<lambda>_.
        andThen (\<lambda>h2. if \<not> truthy (getProp h2 this parentNode)
                      then andThen (ctxField this rootContext) (\<lambda>r2 h3.
                             if truthy (getProp h3 r2 shouldDefineResult)
                             then andThen (addLine this (''result = vn'' @ showInt node @ '';''))
                                    (\<lambda>_. ret ()) h3
                             else ret () h3) h2
                      else ret () h2) (\<lambda>_.
        subContext this parentNode (JNum node)))) h)"

section \<open>Variables, expressions and interpolation\<close>

text \<open>
  The variable mapping is an ordinary object (\<open>{}\<close>, line 11), so besides its entries it
  has the members it inherits from \<open>Object.prototype\<close>: these are their names
  (ECMAScript, with Annex B).
\<close>

definition objectPrototypeNames :: "string list" where
  "objectPrototypeNames =
     [''constructor'', ''hasOwnProperty'', ''isPrototypeOf'', ''propertyIsEnumerable'',
      ''toLocaleString'', ''toString'', ''valueOf'', ''__proto__'', ''__defineGetter__'',
      ''__defineSetter__'', ''__lookupGetter__'', ''__lookupSetter__'']"

text \<open>
  What \<open>getValue\<close> is given and returns (\<open>val: any\<close>): a string, or the member of
  \<open>Object.prototype\<close> with the given name (a function, or for \<open>__proto__\<close> the prototype
  itself).
\<close>

datatype anyval = NameVal string | MemberVal string

text \<open>
  The property key that \<open>in\<close> and indexing make of a value: a string is its own key; a
  member of \<open>Object.prototype\<close> is converted to a string, and the text of a built-in
  function is left to the implementation, so the conversion is a parameter.
\<close>

fun propertyKey :: "(string \<Rightarrow> string) \<Rightarrow> anyval \<Rightarrow> string" where
  "propertyKey memberText (NameVal s) = s"
| "propertyKey memberText (MemberVal m) = memberText m"

text \<open>
  \<open>k in this.variables\<close> and \<open>this.variables[k]\<close> in one: \<open>None\<close> when \<open>in\<close> is false, and
  the value otherwise. An entry of the mapping hides an inherited member.
\<close>

definition readVariable :: "(string \<times> QWebVar) list \<Rightarrow> string \<Rightarrow> anyval option" where
  "readVariable vs k =
     (case map_of vs k of
        Some v \<Rightarrow> Some (NameVal v)
      | None \<Rightarrow> if k \<in> set objectPrototypeNames then Some (MemberVal k) else None)"

text \<open>
  Lines 145 to 147. The recursion goes on for as long as the value is found in the
  mapping; on a cyclic mapping it does not return, which is the value \<open>None\<close>.
\<close>

partial_function (option)
  getValue :: "(string \<Rightarrow> string) \<Rightarrow> heap \<Rightarrow> nat \<Rightarrow> anyval \<Rightarrow> (error + anyval) option"
where
  "getValue memberText h this val =
     (case getProp h this variables of
        JVars vs \<Rightarrow>
          (case readVariable vs (propertyKey memberText val) of
             Some v \<Rightarrow> getValue memberText h this v
           | None \<Rightarrow> Some (Inr val))
      | _ \<Rightarrow> Some (Inl IllTyped))"

text \<open>
  \<open>compileExpr\<close> lives in expression_parser.ts, which is not among the sources; it is a
  parameter of the model. It receives the expression, the value of \<open>this.variables\<close> and
  the name of the scope, and returns the compiled expression or throws.
\<close>

type_synonym resolver = "string \<Rightarrow> jsval \<Rightarrow> string \<Rightarrow> error + string"

text \<open>Lines 155 to 159.\<close>

definition formatExpression :: "resolver \<Rightarrow> nat \<Rightarrow> string \<Rightarrow> string action" where
  "formatExpression compileExpr this expr =
     andThen (ctxField this rootContext) (\<lambda>r.
     andThen (assign r shouldDefineScope (JBool True)) (\<lambda>_ h.
       if truthy (getProp h this subScopeID)
       then (case getProp h this subScopeID of
               JNum n \<Rightarrow>
                 (compileExpr expr (getProp h this variables) (''subScope_'' @ showInt n), h)
             | _ \<Rightarrow> throw IllTyped h)
       else (compileExpr expr (getProp h this variables) ''scope'', h)))"

text \<open>
  The regular expression \<open>/\{\{.*?\}\}/g\<close> (line 3). \<open>lazyBody\<close> matches \<open>.*?\}\}\<close> at the
  start of its argument: the shortest run of characters other than line terminators
  that is followed by two closing braces. The result is the run and the text after
  the braces. The line terminators U+2028 and U+2029 are not characters of the model.
\<close>

definition isLineTerminator :: "char \<Rightarrow> bool" where
  "isLineTerminator c = (c = CHR 0x0A \<or> c = CHR 0x0D)"

fun lazyBody :: "string \<Rightarrow> (string \<times> string) option" where
  "lazyBody [] = None"
| "lazyBody (c # cs) =
     (if take 2 (c # cs) = ''}}'' then Some ([], drop 1 cs)
      else if isLineTerminator c then None
      else (case lazyBody cs of None \<Rightarrow> None | Some (e, r) \<Rightarrow> Some (c # e, r)))"

text \<open>A match of the whole pattern at the start of the argument: the matched text and the rest.\<close>

definition matchAt :: "string \<Rightarrow> (string \<times> string) option" where
  "matchAt s =
     (if take 2 s = ''{{'' then
        (case lazyBody (drop 2 s) of
           None \<Rightarrow> None
         | Some (e, r) \<Rightarrow> Some (''{{'' @ e @ ''}}'', r))
      else None)"

text \<open>
  The global scan that \<open>match\<close> and \<open>replace\<close> share: the matches from left to right
  (\<open>Inl\<close>), each search starting where the previous match ended, with the characters
  that no match covers (\<open>Inr\<close>).
\<close>

function scan :: "string \<Rightarrow> (string + char) list" where
  "scan [] = []"
| "scan (c # cs) =
     (case matchAt (c # cs) of
        Some (m, r) \<Rightarrow> Inl m # scan r
      | None \<Rightarrow> Inr c # scan cs)"
  by pat_completeness auto
termination
proof (relation "measure length")
  show "wf (measure length)"
    by simp
next
  fix c :: char and cs :: string
  show "(cs, c # cs) \<in> measure length"
    by simp
next
  fix c :: char and cs m r :: string and x2 :: "string \<times> string"
  assume found: "matchAt (c # cs) = Some x2" "(m, r) = x2"
  have shorter: "length r' < length s" if "lazyBody s = Some (e, r')" for s e r'
    using that by (induction s arbitrary: e r') (auto split: if_splits option.splits)
  from found have "length r < length (c # cs)"
    by (auto simp: matchAt_def split: if_splits option.splits dest!: shorter)
  then show "(r, c # cs) \<in> measure length"
    by simp
qed

text \<open>\<open>s.match(INTERP_REGEXP)\<close>: every match, in order; \<open>null\<close> is the empty list.\<close>

definition matchAll :: "string \<Rightarrow> string list" where
  "matchAll s = concat (map (case_sum (\<lambda>m. [m]) (\<lambda>c. [])) (scan s))"

text \<open>
  \<open>s.replace(regexp, f)\<close> with a function: each match is replaced by what the function
  returns for it, the characters between matches are copied, and a throw of the
  function ends the call.
\<close>

fun replaceEach :: "(string \<Rightarrow> string action) \<Rightarrow> (string + char) list \<Rightarrow> string action" where
  "replaceEach f [] = ret []"
| "replaceEach f (Inl m # xs) =
     andThen (f m) (\<lambda>x. andThen (replaceEach f xs) (\<lambda>y. ret (x @ y)))"
| "replaceEach f (Inr c # xs) = andThen (replaceEach f xs) (\<lambda>y. ret (c # y))"

definition replaceWith :: "(string \<Rightarrow> string action) \<Rightarrow> string \<Rightarrow> string action" where
  "replaceWith f s = replaceEach f (scan s)"

text \<open>\<open>s.slice(2, -2)\<close>.\<close>

definition slice2 :: "string \<Rightarrow> string" where
  "slice2 s = drop 2 (take (length s - 2) s)"

text \<open>Lines 169 to 177.\<close>

definition interpolate :: "resolver \<Rightarrow> nat \<Rightarrow> string \<Rightarrow> string action" where
  "interpolate compileExpr this s =
     (if (case matchAll s of [] \<Rightarrow> False | m # _ \<Rightarrow> length m = length s)
      then andThen (formatExpression compileExpr this (slice2 s))
             (\<lambda>e. ret (''('' @ e @ '')''))
      else andThen (replaceWith
                      (\<lambda>m. andThen (formatExpression compileExpr this (slice2 m))
                              (\<lambda>e. ret (''${'' @ e @ ''}''))) s)
             (\<lambda>r. ret (backtick # r @ [backtick])))"

section \<open>Protected scopes and block scopes\<close>

text \<open>Lines 178 to 200.\<close>

definition startProtectScope :: "nat \<Rightarrow> int action" where
  "startProtectScope this =
     andThen (generateID this) (\<lambda>protectID.
     andThen (ctxField this rootContext) (\<lambda>r.
     andThen (assign r shouldDefineScope (JBool True)) (\<lambda>_.
     andThen (addLine this (''let _origScope'' @ showInt protectID @ '' = scope;'')) (\<lambda>_.
     andThen (addLine this ''scope = Object.assign(Object.create(context), scope);'') (\<lambda>_.
     ret protectID)))))"

definition stopProtectScope :: "nat \<Rightarrow> int \<Rightarrow> unit action" where
  "stopProtectScope this protectID =
     andThen (addLine this (''scope = _origScope'' @ showInt protectID @ '';'')) (\<lambda>_. ret ())"

definition startBlockScope :: "nat \<Rightarrow> nat action" where
  "startBlockScope this =
     andThen (ctxField this rootContext) (\<lambda>r.
     andThen (assign r shouldDefineScope (JBool True)) (\<lambda>_.
     andThen (generateID this) (\<lambda>scopeID.
     andThen (subContext this subScopeID (JNum scopeID)) (\<lambda>ctx.
     andThen (addLine ctx
                (''const subScope_'' @ showInt scopeID
                   @ '' = Object.assign(Object.create(context), scope);'')) (\<lambda>_.
     ret ctx)))))"

section \<open>Sequences of calls\<close>

text \<open>
  A call names its receiver by address. \<open>exec\<close> is the heap after the call, whether
  it returned or threw; a call that does not return has no heap after it. Its
  parameters are the resolver and the text of the built-in members.
\<close>

datatype call =
    New "string option"
  | GenerateID nat
  | GenerateTemplateKey nat "string option"
  | GenerateCode nat
  | WithParent nat int
  | SubContext nat key jsval
  | Indent nat
  | Dedent nat
  | AddLine nat string
  | AddIf nat string
  | AddElse nat
  | CloseIf nat
  | GetValue nat string
  | FormatExpression nat string
  | Interpolate nat string
  | StartProtectScope nat
  | StopProtectScope nat int
  | StartBlockScope nat

fun exec :: "resolver \<Rightarrow> (string \<Rightarrow> string) \<Rightarrow> call \<Rightarrow> heap \<Rightarrow> heap option" where
  "exec ce mt (New name) h = Some (snd (CompilationContext name h))"
| "exec ce mt (GenerateID c) h = Some (snd (generateID c h))"
| "exec ce mt (GenerateTemplateKey c p) h = Some (snd (generateTemplateKey c p h))"
| "exec ce mt (GenerateCode c) h = Some (snd (generateCode c h))"
| "exec ce mt (WithParent c n) h = Some (snd (withParent c n h))"
| "exec ce mt (SubContext c k v) h = Some (snd (subContext c k v h))"
| "exec ce mt (Indent c) h = Some (snd (indent c h))"
| "exec ce mt (Dedent c) h = Some (snd (dedent c h))"
| "exec ce mt (AddLine c l) h = Some (snd (addLine c l h))"
| "exec ce mt (AddIf c l) h = Some (snd (addIf c l h))"
| "exec ce mt (AddElse c) h = Some (snd (addElse c h))"
| "exec ce mt (CloseIf c) h = Some (snd (closeIf c h))"
| "exec ce mt (GetValue c v) h = (case getValue mt h c (NameVal v) of None \<Rightarrow> None | Some _ \<Rightarrow> Some h)"
| "exec ce mt (FormatExpression c e) h = Some (snd (formatExpression ce c e h))"
| "exec ce mt (Interpolate c s) h = Some (snd (interpolate ce c s h))"
| "exec ce mt (StartProtectScope c) h = Some (snd (startProtectScope c h))"
| "exec ce mt (StopProtectScope c n) h = Some (snd (stopProtectScope c n h))"
| "exec ce mt (StartBlockScope c) h = Some (snd (startBlockScope c h))"

fun run :: "resolver \<Rightarrow> (string \<Rightarrow> string) \<Rightarrow> call list \<Rightarrow> heap \<Rightarrow> heap option" where
  "run ce mt [] h = Some h"
| "run ce mt (c # cs) h =
     (case exec ce mt c h of None \<Rightarrow> None | Some h' \<Rightarrow> run ce mt cs h')"

section \<open>Notions used to state the properties\<close>

text \<open>
  The declarations that \<open>generateCode\<close> may prepend, in the order in which it considers
  them: result variable, scope variable, refs table, parent reference, compiler handle,
  utility helpers. A flag that is not set contributes nothing.
\<close>

definition declarations :: "heap \<Rightarrow> nat \<Rightarrow> string list" where
  "declarations h c =
     (if truthy (getProp h c shouldDefineResult) then [''    let result;''] else [])
   @ (if truthy (getProp h c shouldDefineScope)
      then [''    let scope = Object.create(context);''] else [])
   @ (if truthy (getProp h c shouldDefineRefs)
      then [''    context.__owl__.refs = context.__owl__.refs || {};''] else [])
   @ (if truthy (getProp h c shouldDefineParent)
      then [if truthy (getProp h c hasParentWidget)
            then ''    let parent = extra.parent;'' else ''    let parent = context;'']
      else [])
   @ (if truthy (getProp h c shouldDefineQWeb)
      then [''    let QWeb = this.constructor;''] else [])
   @ (if truthy (getProp h c shouldDefineUtils)
      then [''    let utils = this.constructor.utils;''] else [])"



text \<open>
  An action keeps a property of the heap when the property holds after the action
  whenever it held before, whether the action returns or throws. A property is framed
  when the elementary changes of the heap keep it: writing an array, incrementing the
  counter, allocating an object, assigning a field other than \<open>rootNode\<close>, and assigning
  \<open>rootNode\<close> where it reads as falsy.
\<close>

definition keeps :: "(heap \<Rightarrow> bool) \<Rightarrow> 'a action \<Rightarrow> bool" where
  "keeps Q m = (\<forall>h. Q h \<longrightarrow> Q (snd (m h)))"

definition framed :: "(heap \<Rightarrow> bool) \<Rightarrow> bool" where
  "framed Q =
     ((\<forall>h x. Q h \<longrightarrow> Q (h\<lparr>arrays := x\<rparr>))
    \<and> (\<forall>h. Q h \<longrightarrow> Q (h\<lparr>nextID := jsSucc (nextID h)\<rparr>))
    \<and> (\<forall>h ob. Q h \<longrightarrow> Q (h\<lparr>objs := objs h @ [ob]\<rparr>))
    \<and> (\<forall>h a k v. k \<noteq> rootNode \<longrightarrow> Q h \<longrightarrow> Q (setProp a k v h))
    \<and> (\<forall>h a v. \<not> truthy (getProp h a rootNode) \<longrightarrow> Q h \<longrightarrow> Q (setProp a rootNode v h)))"

subsection \<open>Concrete inputs\<close>

text \<open>
  The heap after \<open>new CompilationContext()\<close> in a fresh process: the context is object 0
  and its code is array 0.
\<close>

definition root0 :: heap where
  "root0 = snd (CompilationContext None init)"

text \<open>The same context after the tree walker has recorded a root-level text node on it.\<close>

definition textRoot :: heap where
  "textRoot = setProp 0 parentTextNode (JNum 5) root0"

text \<open>The context with a loop body derived from it: object 1 has \<open>loopNumber\<close> 1.\<close>

definition loop1 :: heap where
  "loop1 = snd (subContext 0 loopNumber (JNum 1) root0)"



text \<open>The heap in which the counter has reached \<open>2 ^ 53\<close>.\<close>

definition saturated :: heap where
  "saturated = root0\<lparr>nextID := 2 ^ 53\<rparr>"

text \<open>The text of the built-in members as V8 prints it.\<close>

definition memberText0 :: "string \<Rightarrow> string" where
  "memberText0 m =
     (if m = ''__proto__'' then ''[object Object]''
      else if m = ''constructor'' then ''function Object() { [native code] }''
      else ''function '' @ m @ ''() { [native code] }'')"

text \<open>A resolver that qualifies the whole expression with the scope name.\<close>

definition compileExpr0 :: resolver where
  "compileExpr0 expr vars scope = Inr (scope @ ''.'' @ expr)"

section \<open>Reading and writing the store\<close>

lemma lookup_unallocated: "\<not> a < length os \<Longrightarrow> lookup os a k = JUndefined"
  by (simp add: lookup.simps [of os a])

lemma lookup_agree:
  assumes "length os' = length os"
    and "\<And>b. b < length os \<Longrightarrow> b \<le> a \<Longrightarrow>
           proto (os' ! b) = proto (os ! b) \<and> props (os' ! b) k = props (os ! b) k"
  shows "lookup os' a k = lookup os a k"
  using assms(2)
proof (induction a rule: less_induct)
  case (less a)
  show ?case
  proof (cases "a < length os")
    case False
    with assms(1) show ?thesis by (simp add: lookup_unallocated)
  next
    case True
    have here: "proto (os' ! a) = proto (os ! a)" "props (os' ! a) k = props (os ! a) k"
      using less.prems [of a] True by simp_all
    have rec: "lookup os' p k = lookup os p k" if "p < a" for p
      using less.IH [OF that] less.prems that by simp
    show ?thesis
      using True assms(1) here rec
      by (simp add: lookup.simps [of os' a] lookup.simps [of os a] split: option.splits)
  qed
qed

lemma lookup_append: "a < length os \<Longrightarrow> lookup (os @ xs) a k = lookup os a k"
proof (induction a rule: less_induct)
  case (less a)
  have rec: "lookup (os @ xs) p k = lookup os p k" if "p < a" for p
    using less.IH [OF that] less.prems that by simp
  show ?case
    using less.prems rec
    by (simp add: lookup.simps [of "os @ xs" a] lookup.simps [of os a] nth_append
        split: option.splits)
qed

lemma lookup_own:
  "a < length os \<Longrightarrow> props (os ! a) k = Some v \<Longrightarrow> lookup os a k = v"
  by (simp add: lookup.simps [of os a])

lemma lookup_update_same_key:
  assumes "proto o' = proto (os ! a)" and "props o' k = Some v"
  shows "lookup (os[a := o']) b k = lookup os b k
   \<or> (lookup (os[a := o']) b k = v \<and> lookup os b k = lookup os a k)"
proof (induction b rule: less_induct)
  case (less b)
  show ?case
  proof (cases "b < length os")
    case False
    then show ?thesis by (simp add: lookup_unallocated)
  next
    case True
    show ?thesis
    proof (cases "b = a")
      case True
      with \<open>b < length os\<close> assms show ?thesis
        by (simp add: lookup_own)
    next
      case False
      then have same: "os[a := o'] ! b = os ! b" by simp
      show ?thesis
        using True same less.IH
        by (auto simp add: lookup.simps [of "os[a := o']" b] lookup.simps [of os b]
            split: option.splits)
    qed
  qed
qed

lemma getProp_arrays [simp]: "getProp (h\<lparr>arrays := x\<rparr>) a k = getProp h a k"
  by (simp add: getProp_def)

lemma getProp_nextID [simp]: "getProp (h\<lparr>nextID := x\<rparr>) a k = getProp h a k"
  by (simp add: getProp_def)

lemma getProp_setProp_other_key:
  "k \<noteq> k' \<Longrightarrow> getProp (setProp a k' v h) b k = getProp h b k"
proof -
  assume ne: "k \<noteq> k'"
  let ?o = "(objs h ! a)\<lparr>props := (props (objs h ! a))(k' \<mapsto> v)\<rparr>"
  have "lookup ((objs h)[a := ?o]) b k = lookup (objs h) b k"
  proof (rule lookup_agree)
    show "length ((objs h)[a := ?o]) = length (objs h)" by simp
  next
    fix c assume "c < length (objs h)"
    then show "proto ((objs h)[a := ?o] ! c) = proto (objs h ! c)
        \<and> props ((objs h)[a := ?o] ! c) k = props (objs h ! c) k"
      using ne by (cases "c = a") simp_all
  qed
  then show ?thesis by (simp add: getProp_def setProp_def)
qed

lemma getProp_setProp_own:
  "a < length (objs h) \<Longrightarrow> getProp (setProp a k v h) a k = v"
  unfolding getProp_def setProp_def by (simp add: lookup_own)

lemma getProp_setProp_same_key:
  "getProp (setProp a k v h) b k = getProp h b k
   \<or> (getProp (setProp a k v h) b k = v \<and> getProp h b k = getProp h a k)"
  unfolding getProp_def setProp_def
  using lookup_update_same_key [of "(objs h ! a)\<lparr>props := (props (objs h ! a))(k \<mapsto> v)\<rparr>" "objs h" a k v b]
  by simp

lemma getProp_alloc:
  "a < length (objs h) \<Longrightarrow> getProp (h\<lparr>objs := objs h @ xs\<rparr>) a k = getProp h a k"
  by (simp add: getProp_def lookup_append)

lemma getProp_unallocated: "\<not> a < length (objs h) \<Longrightarrow> getProp h a k = JUndefined"
  by (simp add: getProp_def lookup_unallocated)

lemma lookup_last:
  "lookup (os @ [ob]) (length os) k =
     (case props ob k of
        Some v \<Rightarrow> v
      | None \<Rightarrow> (case proto ob of
                   Some p \<Rightarrow> if p < length os then lookup os p k else JUndefined
                 | None \<Rightarrow> JUndefined))"
  by (simp add: lookup.simps [of "os @ [ob]" "length os"] lookup_append
      split: option.splits)


lemma getProp_derived:
  assumes "d < length (objs h)" and "proto (objs h ! d) = Some c" and "c < d"
    and "props (objs h ! d) = Map.empty(k \<mapsto> v)"
  shows "getProp h d k = v" and "k' \<noteq> k \<Longrightarrow> getProp h d k' = getProp h c k'"
  using assms by (simp_all add: getProp_def lookup.simps [of "objs h" d])

section \<open>Evaluating actions\<close>


lemma showInt_1: "showInt 1 = ''1''"
  by (simp add: showInt_def showNat.simps digit_def)

lemma root0_eq:
  "root0 = \<lparr>objs = [\<lparr>proto = None, props = initialFields 0 0 None\<rparr>],
            arrays = [[''    let h = this.h;'']], nextID = 1\<rparr>"
  by (simp add: root0_def CompilationContext_def allocContext_def Let_def addLine_def
      andThen_def numField_def getProp_def lookup.simps initialFields_def ret_def
      newArrayJoin_def codeArray_def push_def init_def)

lemma addLine_result:
  assumes "getProp h c indentLevel = JNum n" and "0 \<le> n + 2" and "n + 2 < 2 ^ 32"
    and "getProp h c code = JStrArray a" and "a < length (arrays h)"
  shows "addLine c l h =
           (Inr (length (arrays h ! a)),
            h\<lparr>arrays := (arrays h)[a := arrays h ! a
                 @ [concat (replicate (nat (n + 2) - 1) ''    '') @ l]]\<rparr>)"
  using assms
  by (simp add: addLine_def andThen_def numField_def ret_def newArrayJoin_def codeArray_def
      push_def)

section \<open>Final code assembly: the result\<close>

lemma ifField_unshiftLine:
  assumes "getProp h c code = JStrArray a" and "a < length (arrays h)"
  shows "ifField c k (unshiftLine c x) h =
           (Inr (), h\<lparr>arrays := (arrays h)[a := (if truthy (getProp h c k) then [x] else [])
                                                  @ arrays h ! a]\<rparr>)"
  using assms
  by (simp add: ifField_def unshiftLine_def andThen_def codeArray_def ret_def unshift_def)

lemma ifField_parent:
  assumes "getProp h c code = JStrArray a" and "a < length (arrays h)"
  shows "ifField c k (\<lambda>h. if truthy (getProp h c k2) then unshiftLine c x h else unshiftLine c y h) h =
           (Inr (), h\<lparr>arrays := (arrays h)[a := (if truthy (getProp h c k) then [if truthy (getProp h c k2) then x else y] else [])
                                                  @ arrays h ! a]\<rparr>)"
  using assms
  by (simp add: ifField_def unshiftLine_def andThen_def codeArray_def ret_def unshift_def)

lemma generateCode_result:
  assumes "getProp h c code = JStrArray a" and "a < length (arrays h)"
  shows "generateCode c h =
           (Inr (rev (declarations h c) @ arrays h ! a),
            h\<lparr>arrays := (arrays h)[a := rev (declarations h c) @ arrays h ! a]\<rparr>)"
  using assms
  by (simp add: generateCode_def andThen_def ifField_unshiftLine ifField_parent
      codeArray_def ret_def declarations_def)

section \<open>Properties that every method keeps\<close>

lemma keeps_ret: "keeps Q (ret v)"
  by (simp add: keeps_def ret_def)

lemma keeps_throw: "keeps Q (throw e)"
  by (simp add: keeps_def throw_def)

lemma keeps_pure: "(\<And>h. snd (m h) = h) \<Longrightarrow> keeps Q m"
  by (simp add: keeps_def)

lemma keeps_andThen:
  "keeps Q m \<Longrightarrow> (\<And>v. keeps Q (f v)) \<Longrightarrow> keeps Q (andThen m f)"
  unfolding keeps_def andThen_def
  by (fastforce split: prod.splits sum.splits)

lemma keeps_if:
  "keeps Q m1 \<Longrightarrow> keeps Q m2 \<Longrightarrow> keeps Q (\<lambda>h. if b h then m1 h else m2 h)"
  by (simp add: keeps_def)

lemma keeps_numField: "keeps Q (numField c k)"
  by (rule keeps_pure) (simp add: numField_def ret_def throw_def split: jsval.splits)

lemma keeps_ctxField: "keeps Q (ctxField c k)"
  by (rule keeps_pure) (simp add: ctxField_def ret_def throw_def split: jsval.splits)

lemma keeps_codeArray: "keeps Q (codeArray c)"
  by (rule keeps_pure) (simp add: codeArray_def ret_def throw_def split: jsval.splits)

lemma keeps_newArrayJoin: "keeps Q (newArrayJoin n s)"
  by (rule keeps_pure) (simp add: newArrayJoin_def ret_def throw_def)

lemma keeps_push: "framed Q \<Longrightarrow> keeps Q (push a x)"
  by (simp add: keeps_def framed_def push_def)

lemma keeps_unshift: "framed Q \<Longrightarrow> keeps Q (unshift a x)"
  by (simp add: keeps_def framed_def unshift_def)

lemma keeps_assign: "framed Q \<Longrightarrow> k \<noteq> rootNode \<Longrightarrow> keeps Q (assign a k v)"
  by (simp add: keeps_def framed_def assign_def)

lemma keeps_generateID: "framed Q \<Longrightarrow> keeps Q (generateID c)"
  by (simp add: keeps_def framed_def generateID_def)

lemma keeps_subContext: "framed Q \<Longrightarrow> keeps Q (subContext c k v)"
  by (simp add: keeps_def framed_def subContext_def)

lemma keeps_allocContext: "framed Q \<Longrightarrow> keeps Q (allocContext name)"
proof -
  assume fr: "framed Q"
  have "Q (h\<lparr>objs := objs h @ [ob], arrays := x\<rparr>)" if "Q h" for h ob x
  proof -
    from fr that have "Q (h\<lparr>objs := objs h @ [ob]\<rparr>)"
      by (simp add: framed_def)
    with fr have "Q ((h\<lparr>objs := objs h @ [ob]\<rparr>)\<lparr>arrays := x\<rparr>)"
      unfolding framed_def by blast
    then show ?thesis by simp
  qed
  then show ?thesis
    by (simp add: keeps_def allocContext_def Let_def)
qed

lemma keeps_addLine: "framed Q \<Longrightarrow> keeps Q (addLine c l)"
  unfolding addLine_def
  by (intro keeps_andThen keeps_numField keeps_newArrayJoin keeps_codeArray keeps_push)

lemma keeps_indent: "framed Q \<Longrightarrow> keeps Q (indent c)"
  unfolding indent_def
  by (intro keeps_andThen keeps_numField keeps_ctxField keeps_assign) simp_all

lemma keeps_dedent: "framed Q \<Longrightarrow> keeps Q (dedent c)"
  unfolding dedent_def
  by (intro keeps_andThen keeps_numField keeps_ctxField keeps_assign) simp_all

lemma keeps_addIf: "framed Q \<Longrightarrow> keeps Q (addIf c l)"
  unfolding addIf_def by (intro keeps_andThen keeps_addLine keeps_indent)

lemma keeps_addElse: "framed Q \<Longrightarrow> keeps Q (addElse c)"
  unfolding addElse_def by (intro keeps_andThen keeps_addLine keeps_indent keeps_dedent)

lemma keeps_closeIf: "framed Q \<Longrightarrow> keeps Q (closeIf c)"
  unfolding closeIf_def by (intro keeps_andThen keeps_addLine keeps_dedent keeps_ret)

lemma keeps_CompilationContext: "framed Q \<Longrightarrow> keeps Q (CompilationContext name)"
  unfolding CompilationContext_def
  by (intro keeps_andThen keeps_addLine keeps_allocContext keeps_ret)

lemma keeps_generateTemplateKey: "framed Q \<Longrightarrow> keeps Q (generateTemplateKey c p)"
proof -
  assume fr: "framed Q"
  have emit: "keeps Q (andThen (numField c loopNumber) (\<lambda>n.
                 andThen (addLine c (line n)) (\<lambda>_. ret x)))" for line x
    by (intro keeps_andThen keeps_numField keeps_addLine keeps_ret fr)
  show ?thesis
    unfolding keeps_def
  proof (intro allI impI)
    fix h
    assume "Q h"
    let ?h1 = "h\<lparr>nextID := jsSucc (nextID h)\<rparr>"
    from fr \<open>Q h\<close> have Q1: "Q ?h1"
      by (simp add: framed_def)
    show "Q (snd (generateTemplateKey c p h))"
    proof (cases "getProp h c loopNumber = JNum 0 \<and> \<not> truthy (getProp h c hasKey0)")
      case True
      then have "snd (generateTemplateKey c p h) = ?h1"
        by (simp add: generateTemplateKey_def Let_def andThen_def generateID_def ret_def)
      with Q1 show ?thesis by simp
    next
      case False
      then obtain line x where
        "generateTemplateKey c p h =
           andThen (numField c loopNumber) (\<lambda>n. andThen (addLine c (line n)) (\<lambda>_. ret x)) ?h1"
        by (simp add: generateTemplateKey_def Let_def andThen_def [of "generateID c"]
            generateID_def)
      with emit [of line x] Q1 show ?thesis
        by (simp add: keeps_def)
    qed
  qed
qed

lemma keeps_unshiftLine: "framed Q \<Longrightarrow> keeps Q (unshiftLine c x)"
  unfolding unshiftLine_def by (intro keeps_andThen keeps_codeArray keeps_unshift)

lemma keeps_ifField: "keeps Q m \<Longrightarrow> keeps Q (ifField c k m)"
  by (simp add: keeps_def ifField_def ret_def)

lemma keeps_generateCode: "framed Q \<Longrightarrow> keeps Q (generateCode c)"
  unfolding generateCode_def
  by (intro keeps_andThen keeps_ifField keeps_if keeps_unshiftLine keeps_codeArray
      keeps_pure) (simp_all add: ret_def)

lemma keeps_withParent: "framed Q \<Longrightarrow> keeps Q (withParent c n)"
proof -
  assume fr: "framed Q"
  have set_root: "keeps Q (\<lambda>h1. if \<not> truthy (getProp h1 r rootNode)
                      then assign r rootNode (JNum n) h1 else ret () h1)" for r
    using fr by (simp add: keeps_def framed_def assign_def ret_def)
  show ?thesis
    unfolding withParent_def
    by (intro keeps_if keeps_throw keeps_andThen keeps_ctxField set_root keeps_ret
        keeps_addLine keeps_subContext fr)
qed

lemma keeps_formatExpression: "framed Q \<Longrightarrow> keeps Q (formatExpression ce c e)"
  unfolding formatExpression_def
  by (intro keeps_andThen keeps_ctxField keeps_assign keeps_pure)
     (simp_all add: throw_def split: jsval.splits)

lemma keeps_replaceEach:
  "(\<And>m. keeps Q (f m)) \<Longrightarrow> keeps Q (replaceEach f xs)"
  by (induction f xs rule: replaceEach.induct) (auto intro!: keeps_andThen keeps_ret)

lemma keeps_interpolate: "framed Q \<Longrightarrow> keeps Q (interpolate ce c s)"
  unfolding interpolate_def replaceWith_def
  by (auto intro!: keeps_andThen keeps_ret keeps_replaceEach keeps_formatExpression)

lemma keeps_startProtectScope: "framed Q \<Longrightarrow> keeps Q (startProtectScope c)"
  unfolding startProtectScope_def
  by (intro keeps_andThen keeps_generateID keeps_ctxField keeps_assign keeps_addLine
      keeps_ret) simp_all

lemma keeps_stopProtectScope: "framed Q \<Longrightarrow> keeps Q (stopProtectScope c n)"
  unfolding stopProtectScope_def by (intro keeps_andThen keeps_addLine keeps_ret)

lemma keeps_startBlockScope: "framed Q \<Longrightarrow> keeps Q (startBlockScope c)"
  unfolding startBlockScope_def
  by (intro keeps_andThen keeps_generateID keeps_ctxField keeps_assign keeps_addLine
      keeps_subContext keeps_ret) simp_all

lemma exec_keeps: "framed Q \<Longrightarrow> Q h \<Longrightarrow> exec ce mt c h = Some h' \<Longrightarrow> Q h'"
proof (cases c)
  case (GetValue x y)
  assume "Q h" "exec ce mt c h = Some h'"
  with GetValue show ?thesis by (auto split: option.splits)
qed (insert keeps_CompilationContext [of Q] keeps_generateID [of Q]
      keeps_generateTemplateKey [of Q] keeps_generateCode [of Q] keeps_withParent [of Q]
      keeps_subContext [of Q] keeps_indent [of Q] keeps_dedent [of Q] keeps_addLine [of Q]
      keeps_addIf [of Q] keeps_addElse [of Q] keeps_closeIf [of Q]
      keeps_formatExpression [of Q] keeps_interpolate [of Q] keeps_startProtectScope [of Q]
      keeps_stopProtectScope [of Q] keeps_startBlockScope [of Q], auto simp: keeps_def)

lemma run_keeps: "framed Q \<Longrightarrow> Q h \<Longrightarrow> run ce mt cs h = Some h' \<Longrightarrow> Q h'"
  by (induction cs arbitrary: h) (auto split: option.splits dest: exec_keeps)

lemma jsSucc_ge: "n \<le> jsSucc n"
  by (simp add: jsSucc_def)

lemma jsSucc_exact: "\<bar>n\<bar> < 2 ^ 53 \<Longrightarrow> jsSucc n = n + 1"
  by (auto simp add: jsSucc_def)

lemma framed_counter: "framed (\<lambda>h. n \<le> nextID h)"
  using jsSucc_ge order_trans by (fastforce simp add: framed_def setProp_def)

lemma framed_rootNode:
  assumes "truthy v"
  shows "framed (\<lambda>h. getProp h r rootNode = v)"
proof -
  have alloc: "getProp (h\<lparr>objs := objs h @ [ob]\<rparr>) r rootNode = v"
    if "getProp h r rootNode = v" for h ob
  proof -
    from that assms have "r < length (objs h)"
      using getProp_unallocated [of r h rootNode] by (cases "r < length (objs h)") auto
    with that show ?thesis by (simp add: getProp_alloc)
  qed
  have same: "getProp (setProp a rootNode w h) r rootNode = v"
    if "\<not> truthy (getProp h a rootNode)" "getProp h r rootNode = v" for h a w
    using getProp_setProp_same_key [of a rootNode w h r] that assms by auto
  show ?thesis
    unfolding framed_def
    by (auto simp: getProp_setProp_other_key alloc same)
qed

section \<open>The key loop and the scan\<close>

lemma keyLoop_upto:
  "keyLoop i n k = k @ concat (map (\<lambda>j. ''${key'' @ showInt j @ ''}__'') [i..n])"
proof (induction i n k rule: keyLoop.induct)
  case (1 i n k)
  show ?case
  proof (cases "i < n + 1")
    case True
    then have "[i..n] = i # [i + 1..n]"
      by (simp add: upto_rec1)
    with True "1.IH" show ?thesis
      by (simp add: keyLoop.simps [of i n k])
  next
    case False
    then show ?thesis
      by (simp add: keyLoop.simps [of i n k])
  qed
qed




lemma matchAll_Nil [simp]: "matchAll [] = []"
  by (simp add: matchAll_def)










section \<open>Construction emits the first instruction\<close>

text \<open>
  Claim C10. Constructing a context, with or without a name, returns and appends one
  instruction: the code of the new context is exactly the line that binds \<open>h\<close>. The
  next \<open>addLine\<close> therefore returns index 1, and what \<open>generateCode\<close> prepends lands in
  front of that line: on the new context it yields the result declaration followed by
  the \<open>h\<close> line, and in any later heap in which the array still starts with the \<open>h\<close> line
  the declarations precede it.
\<close>

theorem constructor_emits_h_binding:
  "(case CompilationContext name h of
      (r, h') \<Rightarrow>
        r = Inr (length (objs h))
      \<and> getProp h' (length (objs h)) code = JStrArray (length (arrays h))
      \<and> arrays h' ! length (arrays h) = [''    let h = this.h;'']
      \<and> (\<forall>l. fst (addLine (length (objs h)) l h') = Inr 1)
      \<and> fst (generateCode (length (objs h)) h')
          = Inr [''    let result;'', ''    let h = this.h;'']
      \<and> (\<forall>h2 a ls. getProp h2 (length (objs h)) code = JStrArray a \<and> a < length (arrays h2)
             \<and> arrays h2 ! a = ''    let h = this.h;'' # ls \<longrightarrow>
           fst (generateCode (length (objs h)) h2)
             = Inr (rev (declarations h2 (length (objs h))) @ ''    let h = this.h;'' # ls)))"
proof -
  let ?t = "length (objs h)"
  let ?h' = "\<lparr>objs = objs h @ [\<lparr>proto = None,
                 props = initialFields ?t (length (arrays h)) name\<rparr>],
             arrays = arrays h @ [[''    let h = this.h;'']],
             nextID = nextID h\<rparr>"
  have new: "CompilationContext name h = (Inr ?t, ?h')"
    by (simp add: CompilationContext_def allocContext_def Let_def addLine_def andThen_def
        numField_def getProp_def lookup_last initialFields_def ret_def newArrayJoin_def
        codeArray_def push_def)
  have own: "getProp ?h' ?t k = the (initialFields ?t (length (arrays h)) name k)" for k
    by (simp add: getProp_def lookup_last initialFields_def)
  have cod: "getProp ?h' ?t code = JStrArray (length (arrays h))"
    by (simp add: own initialFields_def)
  have arr: "arrays ?h' ! length (arrays h) = [''    let h = this.h;'']"
    by simp
  have idx: "fst (addLine ?t l ?h') = Inr 1" for l
    by (subst addLine_result [where n = 0 and a = "length (arrays h)"])
       (simp_all add: own initialFields_def)
  have decl: "declarations ?h' ?t = [''    let result;'']"
    by (simp add: declarations_def own initialFields_def)
  have gen: "fst (generateCode ?t ?h') = Inr [''    let result;'', ''    let h = this.h;'']"
    by (subst generateCode_result [where a = "length (arrays h)"])
       (simp_all add: cod decl)
  have later: "fst (generateCode ?t h2)
                 = Inr (rev (declarations h2 ?t) @ ''    let h = this.h;'' # ls)"
    if "getProp h2 ?t code = JStrArray a" "a < length (arrays h2)"
      "arrays h2 ! a = ''    let h = this.h;'' # ls" for h2 a ls
    using that by (simp add: generateCode_result)
  from cod arr idx gen later show ?thesis
    unfolding new by (simp only: prod.case) blast
qed

theorem constructor_emits_h_binding_witness:
  "fst (CompilationContext None init) = Inr 0
   \<and> arrays root0 ! 0 = [''    let h = this.h;'']
   \<and> fst (addLine 0 ''return vn1;'' root0) = Inr 1
   \<and> fst (generateCode 0 root0) = Inr [''    let result;'', ''    let h = this.h;'']"
  using constructor_emits_h_binding [where name = None and h = init]
  by (simp add: root0_def init_def split: prod.splits)

section \<open>Final code assembly\<close>

text \<open>
  Claim C8. Called on the ROOT (the context that is its own \<open>rootContext\<close>),
  \<open>generateCode\<close> returns, and replaces the accumulated instructions by, the old
  instructions with the enabled declarations prepended one after the other in the
  order result variable, scope variable, refs table, parent reference, compiler
  handle, utility helpers; so they stand in front in the reverse of that order. Each
  flag decides for its own line only, and the parent reference reads \<open>extra.parent\<close>
  when \<open>hasParentWidget\<close> is set and \<open>context\<close> otherwise (see \<open>declarations\<close>).
\<close>

theorem generateCode_prepends_declarations:
  assumes "getProp h c rootContext = JCtx c"
    and "getProp h c code = JStrArray a" and "a < length (arrays h)"
  shows "generateCode c h =
           (Inr (foldl (\<lambda>ls d. d # ls) (arrays h ! a) (declarations h c)),
            h\<lparr>arrays := (arrays h)[a := foldl (\<lambda>ls d. d # ls) (arrays h ! a)
                                            (declarations h c)]\<rparr>)
       \<and> foldl (\<lambda>ls d. d # ls) (arrays h ! a) (declarations h c)
           = rev (declarations h c) @ arrays h ! a"
proof -
  have "foldl (\<lambda>ls d. d # ls) ls ds = rev ds @ ls" for ds ls :: "string list"
    by (induction ds arbitrary: ls) simp_all
  with assms(2,3) show ?thesis
    by (simp add: generateCode_result)
qed

theorem generateCode_prepends_declarations_witness:
  "getProp (snd (formatExpression compileExpr0 0 ''x'' root0)) 0 rootContext = JCtx 0
   \<and> getProp (snd (formatExpression compileExpr0 0 ''x'' root0)) 0 code = JStrArray 0
   \<and> fst (generateCode 0 (snd (formatExpression compileExpr0 0 ''x'' root0)))
       = Inr [''    let scope = Object.create(context);'', ''    let result;'',
              ''    let h = this.h;'']"
proof -
  let ?h = "snd (formatExpression compileExpr0 0 ''x'' root0)"
  have root: "getProp ?h 0 rootContext = JCtx 0"
    by code_simp
  have cod: "getProp ?h 0 code = JStrArray 0"
    by code_simp
  have len: "0 < length (arrays ?h)"
    by code_simp
  have old: "arrays ?h ! 0 = [''    let h = this.h;'']"
    by code_simp
  have decl: "declarations ?h 0
                = [''    let result;'', ''    let scope = Object.create(context);'']"
    by code_simp
  from generateCode_prepends_declarations [OF root cod len] root cod show ?thesis
    by (simp add: old decl)
qed

section \<open>Template keys\<close>

text \<open>
  Claim C5. On a context whose \<open>loopNumber\<close> is 0 and whose \<open>hasKey0\<close> is not set,
  \<open>generateTemplateKey(p)\<close> returns the prefix and the freshly allocated id between
  single quotes, \<open>'p__<id>__'\<close>; the only change of the heap is the counter, so no
  instruction is appended.
\<close>

theorem generateTemplateKey_outside_loops:
  assumes "getProp h c loopNumber = JNum 0" and "\<not> truthy (getProp h c hasKey0)"
  shows "generateTemplateKey c (Some p) h =
           (Inr ([quote] @ p @ ''__'' @ showInt (nextID h) @ ''__'' @ [quote]),
            h\<lparr>nextID := jsSucc (nextID h)\<rparr>)
       \<and> arrays (snd (generateTemplateKey c (Some p) h)) = arrays h"
  using assms
  by (simp add: generateTemplateKey_def andThen_def generateID_def ret_def)

theorem generateTemplateKey_outside_loops_witness:
  "getProp root0 0 loopNumber = JNum 0
   \<and> \<not> truthy (getProp root0 0 hasKey0)
   \<and> fst (generateTemplateKey 0 (Some ''x'') root0) = Inr ([quote] @ ''x__1__'' @ [quote])
   \<and> arrays (snd (generateTemplateKey 0 (Some ''x'') root0)) = [[''    let h = this.h;'']]"
proof -
  have l0: "getProp root0 0 loopNumber = JNum 0"
    by code_simp
  have k0: "\<not> truthy (getProp root0 0 hasKey0)"
    by code_simp
  have id: "nextID root0 = 1"
    by (simp add: root0_eq)
  from generateTemplateKey_outside_loops [OF l0 k0, of "''x''"] l0 k0 show ?thesis
    by (simp add: id showInt_1) (simp add: root0_eq)
qed

text \<open>
  Claim C6. On a context whose \<open>loopNumber\<close> is a number \<open>n\<close>, other than the case of
  claim C5, whose indentation is valid and whose code is an array,
  \<open>generateTemplateKey(p)\<close> returns the name \<open>k<id>\<close> and appends exactly one line, which
  binds that name to the string-template made of the prefix, the id, and the variables
  \<open>key<i>\<close> for \<open>i\<close> from 0 (if \<open>hasKey0\<close> is set) or 1 (otherwise) up to \<open>n\<close>. With
  \<open>loopNumber\<close> 1 and \<open>hasKey0\<close> not set, the template embeds \<open>key1\<close> alone.
\<close>

theorem generateTemplateKey_inside_loops:
  assumes "getProp h c loopNumber = JNum n"
    and "n \<noteq> 0 \<or> truthy (getProp h c hasKey0)"
    and "getProp h c indentLevel = JNum m" and "0 \<le> m + 2" and "m + 2 < 2 ^ 32"
    and "getProp h c code = JStrArray a" and "a < length (arrays h)"
  shows "generateTemplateKey c (Some p) h =
           (Inr (''k'' @ showInt (nextID h)),
            h\<lparr>arrays := (arrays h)[a := arrays h ! a
                 @ [concat (replicate (nat (m + 2) - 1) ''    '')
                    @ ''let k'' @ showInt (nextID h) @ '' = '' @ [backtick] @ p @ ''__''
                    @ showInt (nextID h) @ ''__''
                    @ concat (map (\<lambda>j. ''${key'' @ showInt j @ ''}__'')
                               [(if truthy (getProp h c hasKey0) then 0 else 1)..n])
                    @ [backtick] @ '';'']],
              nextID := jsSucc (nextID h)\<rparr>)
       \<and> (n = 1 \<and> \<not> truthy (getProp h c hasKey0) \<longrightarrow>
            arrays (snd (generateTemplateKey c (Some p) h)) ! a =
              arrays h ! a
                @ [concat (replicate (nat (m + 2) - 1) ''    '')
                   @ ''let k'' @ showInt (nextID h) @ '' = '' @ [backtick] @ p @ ''__''
                   @ showInt (nextID h) @ ''__${key1}__'' @ [backtick] @ '';''])"
proof -
  let ?h1 = "h\<lparr>nextID := jsSucc (nextID h)\<rparr>"
  have pre: "getProp ?h1 c indentLevel = JNum m" "getProp ?h1 c code = JStrArray a"
    "a < length (arrays ?h1)"
    using assms by simp_all
  have one: "[1..1] = [1::int]"
    by (simp add: upto_rec1)
  show ?thesis
    using assms(1,2,7)
    by (auto simp add: generateTemplateKey_def andThen_def [of "generateID c"]
        andThen_def [of "numField c loopNumber"] andThen_def [of "addLine c l" for l]
        generateID_def numField_def
        ret_def addLine_result [OF pre(1) assms(4,5) pre(2,3)] keyLoop_upto one showInt_1)
qed

theorem generateTemplateKey_inside_loops_witness:
  "getProp loop1 1 loopNumber = JNum 1
   \<and> \<not> truthy (getProp loop1 1 hasKey0)
   \<and> fst (generateTemplateKey 1 (Some ''x'') loop1) = Inr ''k1''
   \<and> arrays (snd (generateTemplateKey 1 (Some ''x'') loop1)) ! 0 =
       [''    let h = this.h;'',
        ''    let k1 = '' @ [backtick] @ ''x__1__${key1}__'' @ [backtick] @ '';'']"
proof -
  have l1: "getProp loop1 1 loopNumber = JNum 1"
    by code_simp
  have k0: "\<not> truthy (getProp loop1 1 hasKey0)"
    by code_simp
  have ind: "getProp loop1 1 indentLevel = JNum 0"
    by code_simp
  have cod: "getProp loop1 1 code = JStrArray 0"
    by code_simp
  have len: "0 < length (arrays loop1)"
    by code_simp
  have old: "arrays loop1 ! 0 = [''    let h = this.h;'']"
    by code_simp
  have id: "nextID loop1 = 1"
    by code_simp
  from generateTemplateKey_inside_loops [OF l1 _ ind _ _ cod len, of "''x''"] l1 k0
  show ?thesis
    using len by (simp add: old id showInt_1)
qed

section \<open>The single-root check\<close>

text \<open>
  Claim C1, as amended. The claim as stated fails: \<open>withParent\<close> records the node on the
  derived context it returns, never on the ROOT, so on a newly constructed root context
  two calls both return. What holds: on a ROOT whose \<open>allowMultipleRoots\<close> is not set
  and whose own \<open>parentNode\<close> or \<open>parentTextNode\<close> is already set, \<open>withParent\<close> throws
  the error "A template should not have more than one root node" before it changes
  anything, whatever the node; a second call therefore fails in the same way.
\<close>

theorem withParent_second_root_throws:
  assumes "getProp h c rootContext = JCtx c"
    and "\<not> truthy (getProp h c allowMultipleRoots)"
    and "truthy (getProp h c parentNode) \<or> truthy (getProp h c parentTextNode)"
  shows "withParent c n h =
           (Inl (Error ''A template should not have more than one root node''), h)
       \<and> withParent c n' (snd (withParent c n h)) =
           (Inl (Error ''A template should not have more than one root node''), h)"
  using assms by (simp add: withParent_def throw_def)

theorem withParent_second_root_throws_witness:
  "getProp textRoot 0 rootContext = JCtx 0
   \<and> \<not> truthy (getProp textRoot 0 allowMultipleRoots)
   \<and> truthy (getProp textRoot 0 parentTextNode)
   \<and> withParent 0 1 textRoot =
       (Inl (Error ''A template should not have more than one root node''), textRoot)
   \<and> withParent 0 2 (snd (withParent 0 1 textRoot)) =
       (Inl (Error ''A template should not have more than one root node''), textRoot)"
proof -
  have root: "getProp textRoot 0 rootContext = JCtx 0"
    by code_simp
  have multi: "\<not> truthy (getProp textRoot 0 allowMultipleRoots)"
    by code_simp
  have ptn: "truthy (getProp textRoot 0 parentTextNode)"
    by code_simp
  from ptn have "truthy (getProp textRoot 0 parentNode) \<or> truthy (getProp textRoot 0 parentTextNode)"
    by simp
  from withParent_second_root_throws [OF root multi this, of 1 2]
  have "withParent 0 1 textRoot =
          (Inl (Error ''A template should not have more than one root node''), textRoot)"
    and "withParent 0 2 (snd (withParent 0 1 textRoot)) =
          (Inl (Error ''A template should not have more than one root node''), textRoot)"
    by blast+
  with root multi ptn show ?thesis
    by blast
qed

text \<open>
  On a newly constructed root context the first \<open>withParent\<close> returns the derived
  context 1, and so does a second call on the same root, which returns the context 2:
  neither call fails.
\<close>

theorem withParent_fresh_root_succeeds:
  "fst (withParent 0 1 root0) = Inr 1
   \<and> fst (withParent 0 2 (snd (withParent 0 1 root0))) = Inr 2"
  by code_simp

section \<open>Derived contexts\<close>

text \<open>
  Claim C2. For a context \<open>c\<close> of the heap, \<open>subContext(k, v)\<close> returns a new context
  \<open>d\<close> on which \<open>k\<close> reads as \<open>v\<close> and every other attribute reads as it reads on \<open>c\<close>.
  This is so at the time of every later read: in every heap in which the object \<open>d\<close>
  is still as it was created, whatever else has changed. In particular an assignment
  through any other object (the ROOT, or \<open>c\<close> itself) to an attribute other than \<open>k\<close>
  is seen through \<open>d\<close> exactly as it is seen through \<open>c\<close>.
\<close>

theorem subContext_overrides_one_attribute:
  assumes "c < length (objs h)"
  shows "\<exists>d h1. subContext c k v h = (Inr d, h1)
           \<and> getProp h1 d k = v
           \<and> (\<forall>k'. k' \<noteq> k \<longrightarrow> getProp h1 d k' = getProp h1 c k')
           \<and> (\<forall>h2. d < length (objs h2) \<and> objs h2 ! d = objs h1 ! d \<longrightarrow>
                  getProp h2 d k = v
                \<and> (\<forall>k'. k' \<noteq> k \<longrightarrow> getProp h2 d k' = getProp h2 c k'))
           \<and> (\<forall>a k' w. a \<noteq> d \<and> k' \<noteq> k \<longrightarrow>
                  getProp (setProp a k' w h1) d k' = getProp (setProp a k' w h1) c k')"
proof -
  let ?d = "length (objs h)"
  let ?h1 = "h\<lparr>objs := objs h @ [\<lparr>proto = Some c, props = Map.empty(k \<mapsto> v)\<rparr>]\<rparr>"
  have sub: "subContext c k v h = (Inr ?d, ?h1)"
    by (simp add: subContext_def)
  have live: "getProp h2 ?d k = v \<and> (\<forall>k'. k' \<noteq> k \<longrightarrow> getProp h2 ?d k' = getProp h2 c k')"
    if "?d < length (objs h2)" "objs h2 ! ?d = objs ?h1 ! ?d" for h2
    using getProp_derived [of ?d h2 c k v] that assms by simp
  have now: "getProp ?h1 ?d k = v \<and> (\<forall>k'. k' \<noteq> k \<longrightarrow> getProp ?h1 ?d k' = getProp ?h1 c k')"
    by (rule live) simp_all
  have upd: "getProp (setProp a k' w ?h1) ?d k' = getProp (setProp a k' w ?h1) c k'"
    if "a \<noteq> ?d" "k' \<noteq> k" for a k' w
  proof -
    have "getProp (setProp a k' w ?h1) ?d k = v
        \<and> (\<forall>j. j \<noteq> k \<longrightarrow>
              getProp (setProp a k' w ?h1) ?d j = getProp (setProp a k' w ?h1) c j)"
      by (rule live) (use that in \<open>simp_all add: setProp_def\<close>)
    with that show ?thesis by simp
  qed
  from sub now live upd show ?thesis
    by blast
qed

theorem subContext_overrides_one_attribute_witness:
  "0 < length (objs root0)
   \<and> fst (subContext 0 parentNode (JNum 7) root0) = Inr 1
   \<and> getProp (snd (subContext 0 parentNode (JNum 7) root0)) 1 parentNode = JNum 7
   \<and> getProp (snd (indent 0 (snd (subContext 0 parentNode (JNum 7) root0)))) 0 indentLevel
       = JNum 1
   \<and> getProp (snd (indent 0 (snd (subContext 0 parentNode (JNum 7) root0)))) 1 indentLevel
       = JNum 1"
proof -
  let ?h1 = "snd (subContext 0 parentNode (JNum 7) root0)"
  let ?h2 = "snd (indent 0 ?h1)"
  have alloc: "0 < length (objs root0)"
    by code_simp
  from subContext_overrides_one_attribute [OF alloc, of parentNode "JNum 7"]
  obtain d h1 where sub: "subContext 0 parentNode (JNum 7) root0 = (Inr d, h1)"
    and own: "getProp h1 d parentNode = JNum 7"
    and live: "\<And>h2. d < length (objs h2) \<and> objs h2 ! d = objs h1 ! d \<Longrightarrow>
                 getProp h2 d parentNode = JNum 7
               \<and> (\<forall>k'. k' \<noteq> parentNode \<longrightarrow> getProp h2 d k' = getProp h2 0 k')"
    by blast
  have d: "d = 1" and h1: "h1 = ?h1"
    using sub by (simp_all add: subContext_def root0_eq)
  have ind: "indent 0 ?h1 = (Inr (), setProp 0 indentLevel (JNum 1) ?h1)"
    by (simp add: indent_def andThen_def ctxField_def numField_def ret_def assign_def
        subContext_def root0_eq getProp_def lookup.simps initialFields_def)
  have same: "1 < length (objs ?h2) \<and> objs ?h2 ! 1 = objs ?h1 ! 1"
    unfolding ind by (simp add: setProp_def subContext_def root0_eq)
  have root: "getProp ?h2 0 indentLevel = JNum 1"
    unfolding ind by (simp add: getProp_setProp_own subContext_def root0_eq)
  from same have "d < length (objs ?h2) \<and> objs ?h2 ! d = objs h1 ! d"
    unfolding d h1 .
  from live [OF this] have "getProp ?h2 d indentLevel = getProp ?h2 0 indentLevel"
    by simp
  then have derived: "getProp ?h2 1 indentLevel = JNum 1"
    unfolding d root .
  from sub have "fst (subContext 0 parentNode (JNum 7) root0) = Inr 1"
    unfolding d by simp
  moreover from own have "getProp ?h1 1 parentNode = JNum 7"
    unfolding d h1 .
  ultimately show ?thesis
    using alloc root derived by blast
qed

section \<open>Identifiers\<close>

text \<open>
  Claim C3, as amended. The claim as stated fails once the counter has reached
  \<open>2 ^ 53\<close>: a number is a double, \<open>2 ^ 53 + 1\<close> rounds to \<open>2 ^ 53\<close>, the increment no
  longer moves the counter and the same id is returned again. What holds:
  \<open>generateID\<close> always returns; and for any two calls, on whatever contexts, of which
  the earlier returns an id below \<open>2 ^ 53\<close> in magnitude, with any sequence of calls of
  the class in between (construction of further contexts included) that reaches the
  later call, the later id is strictly greater than the earlier: the counter is shared
  by the whole process and no method lowers or resets it.
\<close>

theorem generateID_strictly_increasing:
  assumes "\<bar>nextID h\<bar> < 2 ^ 53"
    and "run ce mt cs (snd (generateID c1 h)) = Some h2"
  shows "\<exists>id1 id2. fst (generateID c1 h) = Inr id1 \<and> fst (generateID c2 h2) = Inr id2
           \<and> id1 < id2"
proof -
  have "nextID h + 1 \<le> nextID (snd (generateID c1 h))"
    using assms(1) by (simp add: generateID_def jsSucc_exact)
  with assms(2) have "nextID h + 1 \<le> nextID h2"
    using run_keeps [OF framed_counter, where n1 = "nextID h + 1"] by blast
  then show ?thesis
    by (simp add: generateID_def)
qed

theorem generateID_strictly_increasing_witness:
  "\<bar>nextID root0\<bar> < 2 ^ 53
   \<and> (\<exists>h2. run compileExpr0 memberText0
           [GenerateTemplateKey 0 (Some ''x''), New (Some ''other''), StartProtectScope 1]
           (snd (generateID 0 root0)) = Some h2
      \<and> (\<exists>id1 id2. fst (generateID 0 root0) = Inr id1 \<and> fst (generateID 1 h2) = Inr id2
            \<and> id1 < id2))"
proof -
  have small: "\<bar>nextID root0\<bar> < 2 ^ 53"
    by (simp add: root0_eq)
  obtain h2 where reach: "run compileExpr0 memberText0
           [GenerateTemplateKey 0 (Some ''x''), New (Some ''other''), StartProtectScope 1]
           (snd (generateID 0 root0)) = Some h2"
    by simp
  from generateID_strictly_increasing [OF small reach, of 1] small reach show ?thesis
    by blast
qed

text \<open>
  With the counter at \<open>2 ^ 53\<close>, \<open>generateID\<close> returns \<open>2 ^ 53\<close>, and the next call
  returns \<open>2 ^ 53\<close> again.
\<close>

theorem generateID_repeats_at_2_53:
  "fst (generateID 0 saturated) = Inr (2 ^ 53)
   \<and> fst (generateID 0 (snd (generateID 0 saturated))) = Inr (2 ^ 53)"
  by (simp add: generateID_def saturated_def jsSucc_def)

section \<open>The root node\<close>

lemma withParent_records:
  assumes root: "getProp h c rootContext = JCtx r" and alloc: "r < length (objs h)"
    and unset: "\<not> truthy (getProp h r rootNode)"
    and returns: "withParent c n h = (Inr d, h1)"
  shows "getProp h1 r rootNode = JNum n"
proof -
  let ?Q = "\<lambda>g. getProp g r rootNode = JNum n \<and> r < length (objs g)"
  let ?h1 = "setProp r rootNode (JNum n) h"
  let ?rest = "andThen
      (\<lambda>h2. if \<not> truthy (getProp h2 c parentNode)
            then andThen (ctxField c rootContext) (\<lambda>r2 h3.
                   if truthy (getProp h3 r2 shouldDefineResult)
                   then andThen (addLine c (''result = vn'' @ showInt n @ '';''))
                          (\<lambda>_. ret ()) h3
                   else ret () h3) h2
            else ret () h2)
      (\<lambda>_. subContext c parentNode (JNum n))"
  have start: "?Q ?h1"
    using alloc getProp_setProp_own [of r h rootNode "JNum n"] by (simp add: setProp_def)
  have line: "keeps ?Q (addLine c l)" for l
    unfolding addLine_def
    by (intro keeps_andThen keeps_numField keeps_newArrayJoin keeps_codeArray)
       (simp add: keeps_def push_def)
  have sub: "keeps ?Q (subContext c parentNode (JNum n))"
    by (simp add: keeps_def subContext_def getProp_alloc)
  have rest: "keeps ?Q ?rest"
    by (intro keeps_andThen keeps_if keeps_ctxField keeps_ret line sub)
  from returns have nothrow: "\<not> (\<not> truthy (getProp h c allowMultipleRoots)
         \<and> getProp h c rootContext = JCtx c
         \<and> (truthy (getProp h c parentNode) \<or> truthy (getProp h c parentTextNode)))"
    by (auto simp: withParent_def throw_def)
  have "withParent c n h = ?rest ?h1"
    using nothrow root unset
    by (auto simp add: withParent_def andThen_def [of "ctxField c rootContext" _ h]
        andThen_def [of _ _ h] ctxField_def assign_def ret_def)
  with returns have "h1 = snd (?rest ?h1)"
    by simp
  with rest start show ?thesis
    unfolding keeps_def by blast
qed

text \<open>
  Claim C4, as amended. The claim as stated fails for the node 0: \<open>withParent\<close> tests
  \<open>rootNode\<close> for truthiness, so a recorded 0 counts as unset and the next call
  overwrites it. What holds: a \<open>withParent\<close> that returns, on a context whose ROOT has
  no truthy \<open>rootNode\<close> yet, records its node there; and once the \<open>rootNode\<close> of a
  context is truthy (a non-zero node), no sequence of calls of the class, on whatever
  contexts, changes it.
\<close>

theorem rootNode_persists_once_truthy:
  "(getProp h c rootContext = JCtx r \<and> r < length (objs h)
      \<and> \<not> truthy (getProp h r rootNode) \<and> withParent c n h = (Inr d, h1)
    \<longrightarrow> getProp h1 r rootNode = JNum n)
   \<and> (truthy (getProp h r rootNode) \<and> run ce mt cs h = Some h'
    \<longrightarrow> getProp h' r rootNode = getProp h r rootNode)"
proof (intro conjI impI)
  assume "getProp h c rootContext = JCtx r \<and> r < length (objs h)
      \<and> \<not> truthy (getProp h r rootNode) \<and> withParent c n h = (Inr d, h1)"
  then show "getProp h1 r rootNode = JNum n"
    using withParent_records by blast
next
  assume pre: "truthy (getProp h r rootNode) \<and> run ce mt cs h = Some h'"
  then have "framed (\<lambda>g. getProp g r rootNode = getProp h r rootNode)"
    by (simp add: framed_rootNode)
  from run_keeps [OF this] pre show "getProp h' r rootNode = getProp h r rootNode"
    by blast
qed

theorem rootNode_persists_once_truthy_witness:
  "getProp root0 0 rootContext = JCtx 0
   \<and> \<not> truthy (getProp root0 0 rootNode)
   \<and> fst (withParent 0 3 root0) = Inr 1
   \<and> getProp (snd (withParent 0 3 root0)) 0 rootNode = JNum 3
   \<and> (\<exists>h'. run compileExpr0 memberText0 [WithParent 1 7, WithParent 0 9, WithParent 2 0]
               (snd (withParent 0 3 root0)) = Some h'
          \<and> getProp h' 0 rootNode = JNum 3)"
proof -
  have root: "getProp root0 0 rootContext = JCtx 0"
    by code_simp
  have alloc: "0 < length (objs root0)"
    by code_simp
  have unset: "\<not> truthy (getProp root0 0 rootNode)"
    by code_simp
  have ret: "fst (withParent 0 3 root0) = Inr 1"
    by code_simp
  then have call: "withParent 0 3 root0 = (Inr 1, snd (withParent 0 3 root0))"
    by (metis prod.collapse)
  have first: "getProp (snd (withParent 0 3 root0)) 0 rootNode = JNum 3"
    using rootNode_persists_once_truthy
      [where h = root0 and c = 0 and r = 0 and n = 3 and d = 1
         and ?h1.0 = "snd (withParent 0 3 root0)"]
      root alloc unset call by blast
  obtain h' where reach: "run compileExpr0 memberText0 [WithParent 1 7, WithParent 0 9, WithParent 2 0]
               (snd (withParent 0 3 root0)) = Some h'"
    by simp
  have "getProp h' 0 rootNode = JNum 3"
    using rootNode_persists_once_truthy
      [where h = "snd (withParent 0 3 root0)" and r = 0 and ce = compileExpr0
         and mt = memberText0 and cs = "[WithParent 1 7, WithParent 0 9, WithParent 2 0]" and h' = h']
      first reach by simp
  with root unset ret first reach show ?thesis
    by blast
qed

text \<open>
  After \<open>withParent(0)\<close> on a newly constructed root context its \<open>rootNode\<close> is the
  number 0, which is not null; a later \<open>withParent(7)\<close> on the derived context replaces
  it by 7.
\<close>

theorem rootNode_zero_overwritten:
  "getProp (snd (withParent 0 0 root0)) 0 rootNode = JNum 0
   \<and> getProp (snd (withParent 1 7 (snd (withParent 0 0 root0)))) 0 rootNode = JNum 7"
  by code_simp

section \<open>Resolving variables\<close>




section \<open>Interpolation\<close>



end
